theory Spec2Isabelle
  imports Main "HOL-Library.AList"
begin

section \<open>Python values, classes and objects\<close>

text \<open>
  The lifecycle vocabulary of \<^verbatim>\<open>OBJECT_STATES\<close> (uow.py, lines 19-23). The stored
  state of a tracker is \<open>None\<close> until the first assignment, hence \<open>obj_state option\<close>.
\<close>

datatype obj_state = CLEAN | NEW | DELETED | DIRTY

type_synonym addr = nat

text \<open>
  An \<^verbatim>\<open>EntityStateManager\<close> instance: the three name-mangled instance attributes set by
  \<^verbatim>\<open>__init__\<close>. The weak reference is kept as the address of the tracked object.
\<close>

record manager =
  esm_obj_ref :: addr
  esm_state :: "obj_state option"
  esm_last_state_hash :: int

datatype pyval =
    PyNone
  | PyInt int
  | PyStr string
  | PyRef addr
  | PyManager manager

text \<open>
  A class is its name with the names of all its proper ancestors; an object is its class
  with its instance dictionary \<^verbatim>\<open>__dict__\<close>, an association list read with \<open>map_of\<close>
  and written with \<open>AList.update\<close>.
\<close>

datatype pyclass = PyClass (class_name: string) (class_bases: "string list")

record pyobj =
  obj_class :: pyclass
  obj_dict :: "(string \<times> pyval) list"

text \<open>
  The builtins \<^verbatim>\<open>hash\<close> (on strings) and \<^verbatim>\<open>str\<close> (the \<^verbatim>\<open>%s\<close> conversion) belong to
  the Python runtime, not to the repository: they are parameters of the model.
\<close>

record pyrt =
  py_hash :: "string \<Rightarrow> int"
  py_str :: "pyval \<Rightarrow> string"

datatype value_error =
    InvalidTransition "obj_state option" obj_state
  | DoubleRegistration
  | UnregisteredUnregister
  | UnregisteredClean
  | UnregisteredDeleted
  | UnregisteredDirty

datatype error = ValueError value_error | KeyError | AttributeError

text \<open>
  The world: the heap of entity objects (an address is an index; allocation appends)
  and the \<^verbatim>\<open>defaultdict(WeakSet)\<close> of one \<^verbatim>\<open>UnitOfWork\<close>, an association list in
  key order whose values are sets of addresses. The members of a \<^verbatim>\<open>WeakSet\<close> are
  found by identity (the entities keep \<^verbatim>\<open>object.__hash__\<close>), and garbage collection is not
  modelled: every tracked object stays alive.
\<close>

record world =
  heap :: "pyobj list"
  entity_set_map :: "(pyclass \<times> addr set) list"

section \<open>Entities (entities/base.py)\<close>

definition isinstance :: "pyobj \<Rightarrow> pyclass \<Rightarrow> bool" where
  "isinstance ob c \<longleftrightarrow> c = obj_class ob \<or> class_name c \<in> set (class_bases (obj_class ob))"

text \<open>\<^verbatim>\<open>self.id\<close>: the instance attribute, else the class attribute \<^verbatim>\<open>id = None\<close>.\<close>

definition entity_id :: "pyobj \<Rightarrow> pyval" where
  "entity_id ob = (case map_of (obj_dict ob) ''id'' of Some v \<Rightarrow> v | None \<Rightarrow> PyNone)"

text \<open>\<^verbatim>\<open>Entity.__eq__\<close> (base.py, lines 52-53).\<close>

definition entity_eq :: "pyobj \<Rightarrow> pyobj \<Rightarrow> bool" where
  "entity_eq self other \<longleftrightarrow> isinstance other (obj_class self) \<and> entity_id self = entity_id other"

text \<open>
  The operator \<^verbatim>\<open>a == b\<close> as the Python runtime dispatches it (rich comparison): when
  the two operands are of different types and the type of the right one is a subtype of
  the type of the left one, the method of the right operand is asked first, with the
  operands swapped; otherwise the method of the left operand is asked. All entities share
  \<^verbatim>\<open>Entity.__eq__\<close>, which always answers with a truth value, so the first answer is the
  result.
\<close>

definition issubtype :: "pyclass \<Rightarrow> pyclass \<Rightarrow> bool" where
  "issubtype c1 c2 \<longleftrightarrow> c1 = c2 \<or> class_name c2 \<in> set (class_bases c1)"

definition py_eq :: "pyobj \<Rightarrow> pyobj \<Rightarrow> bool" where
  "py_eq v w =
     (if obj_class v \<noteq> obj_class w \<and> issubtype (obj_class w) (obj_class v)
      then entity_eq w v
      else entity_eq v w)"

section \<open>The state tracker (uow.py, class EntityStateManager)\<close>

definition allowed_transitions :: "(obj_state option \<times> obj_state) list" where
  "allowed_transitions =
     [(None, NEW),
      (None, CLEAN),
      (Some NEW, CLEAN),
      (Some NEW, DELETED),
      (Some CLEAN, DIRTY),
      (Some CLEAN, DELETED),
      (Some DIRTY, CLEAN),
      (Some DIRTY, DELETED)]"

definition startswith_underscore :: "string \<Rightarrow> bool" where
  "startswith_underscore n = (case n of [] \<Rightarrow> False | c # _ \<Rightarrow> c = CHR ''_'')"

text \<open>\<^verbatim>\<open>get_state_data\<close> (lines 70-74), on the \<^verbatim>\<open>__dict__\<close> of its argument.\<close>

definition get_state_data :: "(string \<times> pyval) list \<Rightarrow> (string \<times> pyval) list" where
  "get_state_data d =
     filter (\<lambda>(attr_name, attr_value). \<not> startswith_underscore attr_name) d"

definition obj_setattr :: "string \<Rightarrow> pyval \<Rightarrow> pyobj \<Rightarrow> pyobj" where
  "obj_setattr n v ob = ob\<lparr>obj_dict := AList.update n v (obj_dict ob)\<rparr>"

text \<open>\<^verbatim>\<open>set_state_data\<close> (lines 76-79).\<close>

definition set_state_data :: "pyobj \<Rightarrow> (string \<times> pyval) list \<Rightarrow> pyobj" where
  "set_state_data entity data =
     fold (\<lambda>(attr_name, attr_value) ob. obj_setattr attr_name attr_value ob) data entity"

fun join :: "string \<Rightarrow> string list \<Rightarrow> string" where
  "join sep [] = []"
| "join sep [x] = x"
| "join sep (x # y # ys) = x @ sep @ join sep (y # ys)"

definition state_name :: "obj_state \<Rightarrow> string" where
  "state_name s = (case s of CLEAN \<Rightarrow> ''CLEAN'' | NEW \<Rightarrow> ''NEW''
                     | DELETED \<Rightarrow> ''DELETED'' | DIRTY \<Rightarrow> ''DIRTY'')"

definition state_val :: "obj_state option \<Rightarrow> pyval" where
  "state_val s = (case s of None \<Rightarrow> PyNone | Some x \<Rightarrow> PyStr (state_name x))"

text \<open>
  The \<^verbatim>\<open>__dict__\<close> of a manager. Inside the class body \<^verbatim>\<open>self.__state\<close> is the
  attribute \<^verbatim>\<open>_EntityStateManager__state\<close>, and so for the other two.
\<close>

definition esm_dict_init :: "addr \<Rightarrow> obj_state option \<Rightarrow> (string \<times> pyval) list" where
  "esm_dict_init r s =
     [(''_EntityStateManager__obj_ref'', PyRef r),
      (''_EntityStateManager__state'', state_val s)]"

definition esm_dict :: "manager \<Rightarrow> (string \<times> pyval) list" where
  "esm_dict m =
     esm_dict_init (esm_obj_ref m) (esm_state m)
       @ [(''_EntityStateManager__last_state_hash'', PyInt (esm_last_state_hash m))]"

text \<open>
  \<^verbatim>\<open>__get_state_string\<close> (lines 81-86). The source passes \<^verbatim>\<open>self\<close>, the manager, to
  \<^verbatim>\<open>get_state_data\<close>; the function is given here on the dictionary it reads.
\<close>

definition state_string_of :: "pyrt \<Rightarrow> (string \<times> pyval) list \<Rightarrow> string" where
  "state_string_of rt d =
     (let data = get_state_data d;
          tokens = map (\<lambda>(k, v). k @ '':'' @ py_str rt v) data
      in join '','' tokens)"

definition get_state_string :: "pyrt \<Rightarrow> manager \<Rightarrow> string" where
  "get_state_string rt self = state_string_of rt (esm_dict self)"

text \<open>
  \<^verbatim>\<open>__init__\<close> (lines 49-52): the first hash is taken while the instance dictionary holds
  the first two attributes only.
\<close>

definition esm_init :: "pyrt \<Rightarrow> addr \<Rightarrow> manager" where
  "esm_init rt entity =
     \<lparr>esm_obj_ref = entity, esm_state = None,
      esm_last_state_hash = py_hash rt (state_string_of rt (esm_dict_init entity None))\<rparr>"

text \<open>
  \<^verbatim>\<open>__get_state\<close> (lines 88-94), in state-passing form: the value read, and the manager
  as the call leaves it.
\<close>

definition get_state :: "pyrt \<Rightarrow> manager \<Rightarrow> obj_state option \<times> manager" where
  "get_state rt self =
     (let state = esm_state self in
      if state = Some CLEAN then
        (let obj_hash = py_hash rt (get_state_string rt self) in
         if obj_hash \<noteq> esm_last_state_hash self then (Some DIRTY, self) else (state, self))
      else (state, self))"

text \<open>\<^verbatim>\<open>__set_state\<close> (lines 96-100).\<close>

definition set_state :: "pyrt \<Rightarrow> manager \<Rightarrow> obj_state \<Rightarrow> error + manager" where
  "set_state rt self state =
     (let (cur, self1) = get_state rt self in
      if (cur, state) \<notin> set allowed_transitions
      then Inl (ValueError (InvalidTransition (esm_state self1) state))
      else Inr (self1\<lparr>esm_state := Some state\<rparr>))"

text \<open>\<^verbatim>\<open>reset_state\<close> (lines 54-56).\<close>

definition reset_state :: "pyrt \<Rightarrow> manager \<Rightarrow> error + manager" where
  "reset_state rt self =
     (case set_state rt self CLEAN of
        Inl e \<Rightarrow> Inl e
      | Inr self1 \<Rightarrow>
          Inr (self1\<lparr>esm_last_state_hash := py_hash rt (get_state_string rt self1)\<rparr>))"

section \<open>Attribute access on heap objects\<close>

definition setattr :: "addr \<Rightarrow> string \<Rightarrow> pyval \<Rightarrow> world \<Rightarrow> world" where
  "setattr a n v w = w\<lparr>heap := (heap w)[a := obj_setattr n v (heap w ! a)]\<rparr>"

definition delattr :: "addr \<Rightarrow> string \<Rightarrow> world \<Rightarrow> world" where
  "delattr a n w =
     w\<lparr>heap := (heap w)[a := (heap w ! a)\<lparr>obj_dict := AList.delete n (obj_dict (heap w ! a))\<rparr>]\<rparr>"

definition hasattr_everest :: "world \<Rightarrow> addr \<Rightarrow> bool" where
  "hasattr_everest w a \<longleftrightarrow> map_of (obj_dict (heap w ! a)) ''__everest__'' \<noteq> None"

text \<open>
  \<^verbatim>\<open>ent.__everest__.state\<close>: an attribute error when the entity has no handle (or the
  attribute holds something that is no manager); the read leaves the world as it is.
\<close>

definition entity_state :: "pyrt \<Rightarrow> addr \<Rightarrow> world \<Rightarrow> (error + obj_state option) \<times> world" where
  "entity_state rt a w =
     (case map_of (obj_dict (heap w ! a)) ''__everest__'' of
        Some (PyManager m) \<Rightarrow>
          (let (s, m1) = get_state rt m
           in (Inr s, setattr a ''__everest__'' (PyManager m1) w))
      | _ \<Rightarrow> (Inl AttributeError, w))"

text \<open>\<^verbatim>\<open>clone\<close> (lines 58-63): \<^verbatim>\<open>object.__new__\<close> allocates a fresh, empty object.\<close>

definition clone :: "addr \<Rightarrow> world \<Rightarrow> addr \<times> world" where
  "clone entity w =
     (let c = length (heap w);
          new = \<lparr>obj_class = obj_class (heap w ! entity), obj_dict = []\<rparr>;
          data = get_state_data (obj_dict (heap w ! entity))
      in (c, w\<lparr>heap := heap w @ [set_state_data new data]\<rparr>))"

text \<open>
  \<^verbatim>\<open>track\<close> (lines 65-68): the handle is attached first, then its state is assigned
  through the property setter.
\<close>

definition track :: "pyrt \<Rightarrow> addr \<Rightarrow> obj_state \<Rightarrow> world \<Rightarrow> (error + unit) \<times> world" where
  "track rt entity state w =
     (let m = esm_init rt entity;
          w1 = setattr entity ''__everest__'' (PyManager m) w
      in case set_state rt m state of
           Inl e \<Rightarrow> (Inl e, w1)
         | Inr m1 \<Rightarrow> (Inr (), setattr entity ''__everest__'' (PyManager m1) w1))"

section \<open>The unit of work (uow.py, class UnitOfWork)\<close>

text \<open>
  \<^verbatim>\<open>self.__entity_set_map[key]\<close>: a missing key is created with an empty set
  (\<^verbatim>\<open>defaultdict\<close>).
\<close>

definition dd_getitem :: "pyclass \<Rightarrow> world \<Rightarrow> addr set \<times> world" where
  "dd_getitem key w =
     (case map_of (entity_set_map w) key of
        Some s \<Rightarrow> (s, w)
      | None \<Rightarrow> ({}, w\<lparr>entity_set_map := entity_set_map w @ [(key, {})]\<rparr>))"

definition set_add :: "pyclass \<Rightarrow> addr \<Rightarrow> world \<Rightarrow> world" where
  "set_add key ent w =
     (let (s, w1) = dd_getitem key w
      in w1\<lparr>entity_set_map := AList.update key (insert ent s) (entity_set_map w1)\<rparr>)"

definition set_remove :: "pyclass \<Rightarrow> addr \<Rightarrow> world \<Rightarrow> (error + unit) \<times> world" where
  "set_remove key ent w =
     (let (s, w1) = dd_getitem key w
      in if ent \<in> s
         then (Inr (), w1\<lparr>entity_set_map := AList.update key (s - {ent}) (entity_set_map w1)\<rparr>)
         else (Inl KeyError, w1))"

text \<open>The type-\<open>T\<close> tracked set, for reading only (no key is created).\<close>

definition tracked :: "world \<Rightarrow> pyclass \<Rightarrow> addr set" where
  "tracked w key = (case map_of (entity_set_map w) key of Some s \<Rightarrow> s | None \<Rightarrow> {})"

definition register_new :: "pyrt \<Rightarrow> pyclass \<Rightarrow> addr \<Rightarrow> world \<Rightarrow> (error + unit) \<times> world" where
  "register_new rt entity_class entity w =
     (if hasattr_everest w entity then (Inl (ValueError DoubleRegistration), w)
      else case track rt entity NEW w of
             (Inl e, w1) \<Rightarrow> (Inl e, w1)
           | (Inr u, w1) \<Rightarrow> (Inr (), set_add entity_class entity w1))"

definition register_clean :: "pyrt \<Rightarrow> pyclass \<Rightarrow> addr \<Rightarrow> world \<Rightarrow> (error + addr) \<times> world" where
  "register_clean rt entity_class entity w =
     (let (c, w1) = clone entity w
      in case track rt c CLEAN w1 of
           (Inl e, w2) \<Rightarrow> (Inl e, w2)
         | (Inr u, w2) \<Rightarrow> (Inr c, set_add entity_class entity w2))"

definition unregister :: "pyclass \<Rightarrow> addr \<Rightarrow> world \<Rightarrow> (error + unit) \<times> world" where
  "unregister entity_class entity w =
     (if \<not> hasattr_everest w entity then (Inl (ValueError UnregisteredUnregister), w)
      else case set_remove entity_class entity w of
             (Inl e, w1) \<Rightarrow> (Inl e, w1)
           | (Inr u, w1) \<Rightarrow> (Inr (), delattr entity ''__everest__'' w1))"

text \<open>
  The body shared by the three \<^verbatim>\<open>mark_*\<close> methods after their guard: an operation on
  the entity's manager, stored back in place, then the (re-)insertion into the set.
\<close>

definition on_manager ::
  "(manager \<Rightarrow> error + manager) \<Rightarrow> pyclass \<Rightarrow> addr \<Rightarrow> world \<Rightarrow> (error + unit) \<times> world" where
  "on_manager f entity_class entity w =
     (case map_of (obj_dict (heap w ! entity)) ''__everest__'' of
        Some (PyManager m) \<Rightarrow>
          (case f m of
             Inl e \<Rightarrow> (Inl e, w)
           | Inr m1 \<Rightarrow>
               (Inr (), set_add entity_class entity
                          (setattr entity ''__everest__'' (PyManager m1) w)))
      | _ \<Rightarrow> (Inl AttributeError, w))"

definition mark_clean :: "pyrt \<Rightarrow> pyclass \<Rightarrow> addr \<Rightarrow> world \<Rightarrow> (error + unit) \<times> world" where
  "mark_clean rt entity_class entity w =
     (if \<not> hasattr_everest w entity then (Inl (ValueError UnregisteredClean), w)
      else on_manager (reset_state rt) entity_class entity w)"

definition mark_deleted :: "pyrt \<Rightarrow> pyclass \<Rightarrow> addr \<Rightarrow> world \<Rightarrow> (error + unit) \<times> world" where
  "mark_deleted rt entity_class entity w =
     (if \<not> hasattr_everest w entity then (Inl (ValueError UnregisteredDeleted), w)
      else on_manager (\<lambda>m. set_state rt m DELETED) entity_class entity w)"

definition mark_dirty :: "pyrt \<Rightarrow> pyclass \<Rightarrow> addr \<Rightarrow> world \<Rightarrow> (error + unit) \<times> world" where
  "mark_dirty rt entity_class entity w =
     (if \<not> hasattr_everest w entity then (Inl (ValueError UnregisteredDirty), w)
      else on_manager (\<lambda>m. set_state rt m DIRTY) entity_class entity w)"

definition reset :: "world \<Rightarrow> world" where
  "reset w = w\<lparr>entity_set_map := []\<rparr>"

text \<open>
  The generators, consumed to their end. \<open>no_handle\<close> says that reading
  \<^verbatim>\<open>ent.__everest__.state\<close> raises for some member of the set; the members of a set come
  in no particular order, so the entities yielded are a set too.
\<close>

definition no_handle :: "pyrt \<Rightarrow> world \<Rightarrow> addr set \<Rightarrow> bool" where
  "no_handle rt w s \<longleftrightarrow> (\<exists>ent\<in>s. fst (entity_state rt ent w) = Inl AttributeError)"

fun iter_keys ::
  "pyrt \<Rightarrow> obj_state \<Rightarrow> pyclass list \<Rightarrow> world \<Rightarrow> (error + addr set) \<times> world" where
  "iter_keys rt state [] w = (Inr {}, w)"
| "iter_keys rt state (key # keys) w =
     (let (s, w1) = dd_getitem key w in
      if no_handle rt w1 s then (Inl AttributeError, w1)
      else case iter_keys rt state keys w1 of
             (Inl e, w2) \<Rightarrow> (Inl e, w2)
           | (Inr r, w2) \<Rightarrow>
               (Inr ({ent \<in> s. fst (entity_state rt ent w1) = Inr (Some state)} \<union> r), w2))"

text \<open>\<^verbatim>\<open>__object_iterator\<close> (lines 224-232).\<close>

definition object_iterator ::
  "pyrt \<Rightarrow> obj_state \<Rightarrow> pyclass option \<Rightarrow> world \<Rightarrow> (error + addr set) \<times> world" where
  "object_iterator rt state ent_cls w =
     (let keys = (case ent_cls of None \<Rightarrow> map fst (entity_set_map w) | Some c \<Rightarrow> [c])
      in iter_keys rt state keys w)"

definition get_clean :: "pyrt \<Rightarrow> pyclass option \<Rightarrow> world \<Rightarrow> (error + addr set) \<times> world" where
  "get_clean rt entity_class w = object_iterator rt CLEAN entity_class w"

definition get_new :: "pyrt \<Rightarrow> pyclass option \<Rightarrow> world \<Rightarrow> (error + addr set) \<times> world" where
  "get_new rt entity_class w = object_iterator rt NEW entity_class w"

definition get_deleted :: "pyrt \<Rightarrow> pyclass option \<Rightarrow> world \<Rightarrow> (error + addr set) \<times> world" where
  "get_deleted rt entity_class w = object_iterator rt DELETED entity_class w"

definition get_dirty :: "pyrt \<Rightarrow> pyclass option \<Rightarrow> world \<Rightarrow> (error + addr set) \<times> world" where
  "get_dirty rt entity_class w = object_iterator rt DIRTY entity_class w"

text \<open>\<^verbatim>\<open>iterator\<close> (lines 216-219): triples of key, entity and state.\<close>

fun iter_triples ::
  "pyrt \<Rightarrow> pyclass list \<Rightarrow> world \<Rightarrow> error + (pyclass \<times> addr \<times> obj_state option) set" where
  "iter_triples rt [] w = Inr {}"
| "iter_triples rt (ent_cls # keys) w =
     (let s = tracked w ent_cls in
      if no_handle rt w s then Inl AttributeError
      else case iter_triples rt keys w of
             Inl e \<Rightarrow> Inl e
           | Inr r \<Rightarrow>
               Inr ((\<lambda>ent. (ent_cls, ent,
                             (case fst (entity_state rt ent w) of Inr st \<Rightarrow> st | Inl e \<Rightarrow> None))) ` s
                    \<union> r))"

definition iterator ::
  "pyrt \<Rightarrow> world \<Rightarrow> error + (pyclass \<times> addr \<times> obj_state option) set" where
  "iterator rt w = iter_triples rt (map fst (entity_set_map w)) w"

text \<open>
  Membership of an entity in some tracked set of the unit of work.
\<close>

definition registered :: "world \<Rightarrow> addr \<Rightarrow> bool" where
  "registered w a \<longleftrightarrow> (\<exists>key \<in> set (map fst (entity_set_map w)). a \<in> tracked w key)"

section \<open>A small concrete world\<close>

text \<open>
  A runtime whose hash is the length of the string, two entity classes, the second a
  subclass of the first, and a heap holding one widget with \<^verbatim>\<open>id = None\<close> and
  \<^verbatim>\<open>name = 'a'\<close> in front of an empty unit of work.
\<close>

definition rt_ex :: pyrt where
  "rt_ex = \<lparr>py_hash = (\<lambda>s. int (length s)), py_str = (\<lambda>v. ''v'')\<rparr>"

definition Widget :: pyclass where
  "Widget = PyClass ''Widget'' [''Entity'', ''object'']"

definition SpecialWidget :: pyclass where
  "SpecialWidget = PyClass ''SpecialWidget'' [''Widget'', ''Entity'', ''object'']"

definition widget_a :: pyobj where
  "widget_a = \<lparr>obj_class = Widget, obj_dict = [(''id'', PyNone), (''name'', PyStr ''a'')]\<rparr>"

definition w_ex :: world where
  "w_ex = \<lparr>heap = [widget_a], entity_set_map = []\<rparr>"

definition widget_one :: pyobj where
  "widget_one = \<lparr>obj_class = Widget, obj_dict = [(''id'', PyInt 1)]\<rparr>"

definition special_one :: pyobj where
  "special_one = \<lparr>obj_class = SpecialWidget, obj_dict = [(''id'', PyInt 1)]\<rparr>"

text \<open>
  Trackers of the object at address 0 in the states NEW, DIRTY and DELETED, with the
  baseline that \<open>rt_ex\<close> gives the empty string, and a tracker stored as CLEAN whose
  baseline is another number.
\<close>

definition m_new :: manager where
  "m_new = \<lparr>esm_obj_ref = 0, esm_state = Some NEW, esm_last_state_hash = 0\<rparr>"

definition m_dirty :: manager where
  "m_dirty = \<lparr>esm_obj_ref = 0, esm_state = Some DIRTY, esm_last_state_hash = 0\<rparr>"

definition m_deleted :: manager where
  "m_deleted = \<lparr>esm_obj_ref = 0, esm_state = Some DELETED, esm_last_state_hash = 0\<rparr>"

definition m_diverged :: manager where
  "m_diverged = \<lparr>esm_obj_ref = 0, esm_state = Some CLEAN, esm_last_state_hash = 7\<rparr>"

text \<open>
  The world after the widget has been registered as NEW under \<open>Widget\<close> and marked
  DELETED under \<open>SpecialWidget\<close>: it then sits in the tracked sets of both keys.
\<close>

definition w_two :: world where
  "w_two = snd (mark_deleted rt_ex SpecialWidget 0 (snd (register_new rt_ex Widget 0 w_ex)))"

section \<open>Facts about the tracker\<close>

text \<open>
  Every attribute of a manager starts with an underscore, so the data that
  \<^verbatim>\<open>__get_state_string\<close> collects is empty and the state string is the empty string,
  whatever the tracked entity holds.
\<close>

lemma get_state_data_esm_dict: "get_state_data (esm_dict m) = []"
  by (simp add: get_state_data_def esm_dict_def esm_dict_init_def startswith_underscore_def)

lemma get_state_string_empty: "get_state_string rt m = []"
  by (simp add: get_state_string_def state_string_of_def get_state_data_esm_dict)

lemma state_string_init_empty: "state_string_of rt (esm_dict_init r s) = []"
  by (simp add: state_string_of_def get_state_data_def esm_dict_init_def startswith_underscore_def)

lemma get_state_snd: "snd (get_state rt m) = m"
  by (simp add: get_state_def Let_def)

lemma get_state_fst:
  "fst (get_state rt m) =
     (if esm_state m = Some CLEAN \<and> py_hash rt [] \<noteq> esm_last_state_hash m
      then Some DIRTY else esm_state m)"
  by (simp add: get_state_def Let_def get_state_string_empty)

lemma set_state_eq:
  "set_state rt m st =
     (if (fst (get_state rt m), st) \<in> set allowed_transitions
      then Inr (m\<lparr>esm_state := Some st\<rparr>)
      else Inl (ValueError (InvalidTransition (esm_state m) st)))"
  using get_state_snd [of rt m]
  by (cases "get_state rt m") (simp add: set_state_def)

lemma esm_init_eq:
  "esm_init rt a = \<lparr>esm_obj_ref = a, esm_state = None, esm_last_state_hash = py_hash rt []\<rparr>"
  by (simp add: esm_init_def state_string_init_empty)

section \<open>Facts about the heap\<close>

lemma heap_setattr: "heap (setattr a n v w) = (heap w)[a := obj_setattr n v (heap w ! a)]"
  by (simp add: setattr_def)

lemma entity_set_map_setattr: "entity_set_map (setattr a n v w) = entity_set_map w"
  by (simp add: setattr_def)

lemma length_heap_setattr: "length (heap (setattr a n v w)) = length (heap w)"
  by (simp add: setattr_def)

lemma obj_at_setattr:
  "a < length (heap w) \<Longrightarrow>
   heap (setattr a n v w) ! b = (if b = a then obj_setattr n v (heap w ! a) else heap w ! b)"
  by (simp add: setattr_def nth_list_update)

lemma map_of_obj_setattr:
  "map_of (obj_dict (obj_setattr n v ob)) k = (if k = n then Some v else map_of (obj_dict ob) k)"
  by (simp add: obj_setattr_def update_conv')

lemma obj_class_obj_setattr: "obj_class (obj_setattr n v ob) = obj_class ob"
  by (simp add: obj_setattr_def)

lemma setattr_same:
  "map_of (obj_dict (heap w ! a)) n = Some v \<Longrightarrow> setattr a n v w = w"
  by (simp add: setattr_def obj_setattr_def update_triv)

lemma track_ok:
  assumes "st = NEW \<or> st = CLEAN"
  shows "track rt a st w =
           (Inr (), setattr a ''__everest__''
                      (PyManager \<lparr>esm_obj_ref = a, esm_state = Some st,
                                  esm_last_state_hash = py_hash rt []\<rparr>)
                      (setattr a ''__everest__'' (PyManager (esm_init rt a)) w))"
  using assms
  by (auto simp add: track_def Let_def set_state_eq get_state_fst esm_init_eq
        allowed_transitions_def)

lemma entity_state_manager:
  assumes "map_of (obj_dict (heap w ! a)) ''__everest__'' = Some (PyManager m)"
  shows "entity_state rt a w = (Inr (fst (get_state rt m)), w)"
proof -
  have "setattr a ''__everest__'' (PyManager m) w = w"
    using assms by (rule setattr_same)
  then show ?thesis
    using assms get_state_snd [of rt m]
    by (cases "get_state rt m") (simp add: entity_state_def)
qed

lemma entity_state_no_manager:
  assumes "\<forall>m. map_of (obj_dict (heap w ! a)) ''__everest__'' \<noteq> Some (PyManager m)"
  shows "entity_state rt a w = (Inl AttributeError, w)"
proof (cases "map_of (obj_dict (heap w ! a)) ''__everest__''")
  case None
  then show ?thesis by (simp add: entity_state_def)
next
  case (Some v)
  with assms show ?thesis by (cases v) (simp_all add: entity_state_def)
qed

lemma entity_state_snd: "snd (entity_state rt a w) = w"
proof (cases "\<exists>m. map_of (obj_dict (heap w ! a)) ''__everest__'' = Some (PyManager m)")
  case True
  then show ?thesis by (auto simp add: entity_state_manager)
next
  case False
  then show ?thesis by (simp add: entity_state_no_manager)
qed

lemma hasattr_setattr_everest:
  "a < length (heap w) \<Longrightarrow> hasattr_everest (setattr a ''__everest__'' v w) a"
  by (simp add: hasattr_everest_def obj_at_setattr map_of_obj_setattr)

lemma hasattr_heap: "heap w1 = heap w \<Longrightarrow> hasattr_everest w1 a = hasattr_everest w a"
  by (simp add: hasattr_everest_def)

lemma entity_state_fst_heap:
  "heap w1 = heap w \<Longrightarrow> fst (entity_state rt a w1) = fst (entity_state rt a w)"
proof (cases "\<exists>m. map_of (obj_dict (heap w ! a)) ''__everest__'' = Some (PyManager m)")
  case True
  assume "heap w1 = heap w"
  with True show ?thesis by (auto simp add: entity_state_manager)
next
  case False
  assume "heap w1 = heap w"
  with False show ?thesis by (simp add: entity_state_no_manager)
qed

lemma entity_state_untracked:
  "\<not> hasattr_everest w a \<Longrightarrow> fst (entity_state rt a w) = Inl AttributeError"
  by (simp add: hasattr_everest_def entity_state_no_manager)

lemma hasattr_delattr:
  "a < length (heap w) \<Longrightarrow> \<not> hasattr_everest (delattr a ''__everest__'' w) a"
  by (simp add: hasattr_everest_def delattr_def delete_conv')

section \<open>Facts about the tracked sets\<close>

lemma dd_getitem_fst: "fst (dd_getitem key w) = tracked w key"
  by (simp add: dd_getitem_def tracked_def split: option.splits)

lemma dd_getitem_heap: "heap (snd (dd_getitem key w)) = heap w"
  by (simp add: dd_getitem_def split: option.splits)

lemma dd_getitem_tracked: "tracked (snd (dd_getitem key w)) k = tracked w k"
  by (auto simp add: dd_getitem_def tracked_def map_add_def split: option.splits)

lemma heap_set_add: "heap (set_add key ent w) = heap w"
  by (simp add: set_add_def dd_getitem_def split: option.splits)

lemma tracked_set_add:
  "tracked (set_add key ent w) k = (if k = key then insert ent (tracked w key) else tracked w k)"
  by (auto simp add: set_add_def dd_getitem_def tracked_def update_conv' map_add_def
        split: option.splits)

lemma tracked_setattr: "tracked (setattr a n v w) k = tracked w k"
  by (simp add: tracked_def entity_set_map_setattr)

lemma tracked_heap_update: "tracked (w\<lparr>heap := h\<rparr>) k = tracked w k"
  by (simp add: tracked_def)

lemma tracked_delattr: "tracked (delattr a n w) k = tracked w k"
  by (simp add: tracked_def delattr_def)

lemma tracked_update:
  "tracked (w\<lparr>entity_set_map := AList.update T s (entity_set_map w)\<rparr>) k =
     (if k = T then s else tracked w k)"
  by (simp add: tracked_def update_conv')

lemma tracked_key: "a \<in> tracked w key \<Longrightarrow> key \<in> set (map fst (entity_set_map w))"
proof -
  assume "a \<in> tracked w key"
  then have "map_of (entity_set_map w) key \<noteq> None"
    by (auto simp add: tracked_def split: option.splits)
  then show ?thesis by (simp add: map_of_eq_None_iff)
qed

lemma registered_iff: "registered w a \<longleftrightarrow> (\<exists>key. a \<in> tracked w key)"
proof
  assume "registered w a"
  then show "\<exists>key. a \<in> tracked w key" by (auto simp add: registered_def)
next
  assume "\<exists>key. a \<in> tracked w key"
  then obtain key where k: "a \<in> tracked w key" ..
  then have "map_of (entity_set_map w) key \<noteq> None"
    by (auto simp add: tracked_def split: option.splits)
  then have "key \<in> set (map fst (entity_set_map w))"
    by (simp add: map_of_eq_None_iff)
  with k show "registered w a" by (auto simp add: registered_def)
qed

lemma set_remove_member:
  assumes "e \<in> tracked w T"
  shows "set_remove T e w =
           (Inr (), w\<lparr>entity_set_map := AList.update T (tracked w T - {e}) (entity_set_map w)\<rparr>)"
proof -
  from assms obtain s where s: "map_of (entity_set_map w) T = Some s"
    by (auto simp add: tracked_def split: option.splits)
  with assms show ?thesis
    by (simp add: set_remove_def dd_getitem_def tracked_def)
qed

section \<open>Facts about the operations of the unit of work\<close>

lemma register_new_ok:
  assumes "e < length (heap w)" and "\<not> hasattr_everest w e"
  shows "register_new rt T e w =
           (Inr (), set_add T e
              (setattr e ''__everest__''
                 (PyManager \<lparr>esm_obj_ref = e, esm_state = Some NEW,
                             esm_last_state_hash = py_hash rt []\<rparr>)
                 (setattr e ''__everest__'' (PyManager (esm_init rt e)) w)))"
  using assms by (simp add: register_new_def track_ok)

lemma register_new_result:
  "fst (register_new rt T e w) = Inr () \<Longrightarrow> \<not> hasattr_everest w e"
  by (auto simp add: register_new_def split: if_splits)

lemma unregister_ok:
  assumes "hasattr_everest w e" and "e \<in> tracked w T"
  shows "unregister T e w =
           (Inr (), delattr e ''__everest__''
                      (w\<lparr>entity_set_map :=
                           AList.update T (tracked w T - {e}) (entity_set_map w)\<rparr>))"
  using assms by (simp add: unregister_def set_remove_member)

lemma set_remove_absent:
  assumes "e \<notin> tracked w T"
  shows "fst (set_remove T e w) = Inl KeyError
       \<and> heap (snd (set_remove T e w)) = heap w
       \<and> (\<forall>K. tracked (snd (set_remove T e w)) K = tracked w K)"
  using assms
  by (auto simp add: set_remove_def dd_getitem_def tracked_def map_add_def split: option.splits)

lemma unregister_absent:
  assumes "hasattr_everest w e" and "e \<notin> tracked w T"
  shows "fst (unregister T e w) = Inl KeyError
       \<and> hasattr_everest (snd (unregister T e w)) e
       \<and> (\<forall>K. tracked (snd (unregister T e w)) K = tracked w K)"
proof -
  obtain r w1 where s: "set_remove T e w = (r, w1)" by (cases "set_remove T e w")
  with set_remove_absent [OF assms(2)]
  have r: "r = Inl KeyError" and h: "heap w1 = heap w" and t: "\<forall>K. tracked w1 K = tracked w K"
    by simp_all
  have u: "unregister T e w = (Inl KeyError, w1)"
    using assms(1) s r by (simp add: unregister_def)
  show ?thesis using assms(1) t by (simp add: u hasattr_heap [OF h])
qed

lemma w_one_facts:
  "length (heap (snd (register_new rt_ex Widget 0 w_ex))) = 1"
  "hasattr_everest (snd (register_new rt_ex Widget 0 w_ex)) 0"
  "0 \<notin> tracked (snd (register_new rt_ex Widget 0 w_ex)) SpecialWidget"
  by (code_simp+)

lemma w_two_facts:
  "length (heap w_two) = 1" "hasattr_everest w_two 0" "tracked w_two Widget = {0}"
  "tracked w_two SpecialWidget = {0}"
  by (code_simp+)

lemma map_of_get_state_data:
  "map_of (get_state_data d) k = (if startswith_underscore k then None else map_of d k)"
  by (induction d) (auto simp add: get_state_data_def)

lemma distinct_get_state_data:
  "distinct (map fst d) \<Longrightarrow> distinct (map fst (get_state_data d))"
  by (simp add: get_state_data_def distinct_map_filter)

lemma obj_class_set_state_data: "obj_class (set_state_data ob data) = obj_class ob"
  unfolding set_state_data_def
  by (induction data arbitrary: ob) (auto simp add: obj_class_obj_setattr)

lemma map_of_set_state_data:
  "distinct (map fst data) \<Longrightarrow>
   map_of (obj_dict (set_state_data ob data)) k =
     (case map_of data k of Some v \<Rightarrow> Some v | None \<Rightarrow> map_of (obj_dict ob) k)"
  unfolding set_state_data_def
proof (induction data arbitrary: ob)
  case Nil
  then show ?case by simp
next
  case (Cons p data)
  obtain n v where p: "p = (n, v)" by (cases p)
  from Cons.prems p have nd: "n \<notin> fst ` set data" and d: "distinct (map fst data)"
    by auto
  from nd have "map_of data n = None" by (simp add: map_of_eq_None_iff)
  then show ?case
    using Cons.IH [OF d, of "obj_setattr n v ob"] p
    by (auto simp add: map_of_obj_setattr split: option.splits)
qed

lemma clone_eq:
  "clone e w =
     (length (heap w),
      w\<lparr>heap := heap w @ [set_state_data \<lparr>obj_class = obj_class (heap w ! e), obj_dict = []\<rparr>
                             (get_state_data (obj_dict (heap w ! e)))]\<rparr>)"
  by (simp add: clone_def Let_def)

lemma register_clean_eq:
  "register_clean rt T e w =
     (Inr (length (heap w)),
      set_add T e
        (setattr (length (heap w)) ''__everest__''
           (PyManager \<lparr>esm_obj_ref = length (heap w), esm_state = Some CLEAN,
                       esm_last_state_hash = py_hash rt []\<rparr>)
           (setattr (length (heap w)) ''__everest__'' (PyManager (esm_init rt (length (heap w))))
              (snd (clone e w)))))"
  by (simp add: register_clean_def clone_eq track_ok)

lemma register_clean_heap:
  "heap (snd (register_clean rt T e w)) =
     heap w @
       [obj_setattr ''__everest__''
          (PyManager \<lparr>esm_obj_ref = length (heap w), esm_state = Some CLEAN,
                      esm_last_state_hash = py_hash rt []\<rparr>)
          (obj_setattr ''__everest__'' (PyManager (esm_init rt (length (heap w))))
             (set_state_data \<lparr>obj_class = obj_class (heap w ! e), obj_dict = []\<rparr>
                (get_state_data (obj_dict (heap w ! e)))))]"
  by (simp add: register_clean_eq heap_set_add heap_setattr clone_eq)

lemma register_clean_tracked:
  "tracked (snd (register_clean rt T e w)) K =
     (if K = T then insert e (tracked w T) else tracked w K)"
  by (simp add: register_clean_eq tracked_set_add clone_eq tracked_setattr tracked_heap_update)

lemma register_clean_original:
  "e < length (heap w) \<Longrightarrow> heap (snd (register_clean rt T e w)) ! e = heap w ! e"
  by (simp add: register_clean_heap nth_append)

lemma register_clean_clone_dict:
  assumes "distinct (map fst (obj_dict (heap w ! e)))"
  shows "map_of (obj_dict (heap (snd (register_clean rt T e w)) ! length (heap w))) n =
           (if n = ''__everest__''
            then Some (PyManager \<lparr>esm_obj_ref = length (heap w), esm_state = Some CLEAN,
                                  esm_last_state_hash = py_hash rt []\<rparr>)
            else if startswith_underscore n then None
            else map_of (obj_dict (heap w ! e)) n)"
  using distinct_get_state_data [OF assms]
  by (simp add: register_clean_heap map_of_obj_setattr map_of_set_state_data
        map_of_get_state_data split: option.splits)

lemma iter_keys_error:
  "key \<in> set keys \<Longrightarrow> a \<in> tracked w key \<Longrightarrow>
   fst (entity_state rt a w) = Inl AttributeError \<Longrightarrow>
   fst (iter_keys rt st keys w) = Inl AttributeError"
proof (induction keys arbitrary: w)
  case Nil
  then show ?case by simp
next
  case (Cons k ks)
  obtain s w1 where d: "dd_getitem k w = (s, w1)"
    by (cases "dd_getitem k w")
  have s: "s = tracked w k"
    using dd_getitem_fst [of k w] d by simp
  have h: "heap w1 = heap w"
    using dd_getitem_heap [of k w] d by simp
  have t: "tracked w1 key = tracked w key"
    using dd_getitem_tracked [of k w key] d by simp
  have a1: "fst (entity_state rt a w1) = Inl AttributeError"
    using Cons.prems(3) by (simp add: entity_state_fst_heap [OF h])
  show ?case
  proof (cases "no_handle rt w1 s")
    case True
    then show ?thesis by (simp add: d)
  next
    case False
    with a1 Cons.prems(2) s have "key \<noteq> k"
      by (auto simp add: no_handle_def)
    with Cons.prems(1) have "key \<in> set ks" by simp
    moreover have "a \<in> tracked w1 key"
      using Cons.prems(2) t by simp
    ultimately have "fst (iter_keys rt st ks w1) = Inl AttributeError"
      using a1 by (rule Cons.IH)
    with False show ?thesis
      by (cases "iter_keys rt st ks w1") (simp add: d)
  qed
qed

lemma iter_triples_error:
  "key \<in> set keys \<Longrightarrow> a \<in> tracked w key \<Longrightarrow>
   fst (entity_state rt a w) = Inl AttributeError \<Longrightarrow>
   iter_triples rt keys w = Inl AttributeError"
proof (induction keys)
  case Nil
  then show ?case by simp
next
  case (Cons k ks)
  show ?case
  proof (cases "no_handle rt w (tracked w k)")
    case True
    then show ?thesis by simp
  next
    case False
    with Cons.prems(2,3) have "key \<noteq> k"
      by (auto simp add: no_handle_def)
    with Cons.prems(1) have "key \<in> set ks" by simp
    then have "iter_triples rt ks w = Inl AttributeError"
      using Cons.prems(2,3) by (rule Cons.IH)
    with False show ?thesis by simp
  qed
qed

lemma object_iterator_error:
  assumes "a \<in> tracked w T" and "fst (entity_state rt a w) = Inl AttributeError"
  shows "fst (object_iterator rt st None w) = Inl AttributeError"
    and "fst (object_iterator rt st (Some T) w) = Inl AttributeError"
proof -
  have k: "T \<in> set (map fst (entity_set_map w))"
    using assms(1) by (rule tracked_key)
  show "fst (object_iterator rt st None w) = Inl AttributeError"
    using iter_keys_error [OF k assms] by (simp add: object_iterator_def)
  have "T \<in> set [T]" by simp
  from iter_keys_error [OF this assms]
  show "fst (object_iterator rt st (Some T) w) = Inl AttributeError"
    by (simp add: object_iterator_def)
qed

section \<open>Dirty detection\<close>

text \<open>
  C1. Dirty detection: once an entity is tracked as CLEAN, changing a public attribute is
  meant to make the next state read DIRTY, and changing a private attribute is not. The
  code never reports the change: for an entity \<open>e\<close> tracked as CLEAN, after any attribute
  \<open>n\<close> other than the handle itself is set to any value \<open>v\<close>, the state read is still
  CLEAN, because the fingerprint is taken over the manager's own attributes.
\<close>

theorem dirty_detection_never_fires:
  assumes "e < length (heap w)" and "n \<noteq> ''__everest__''"
  shows "fst (entity_state rt e (setattr e n v (snd (track rt e CLEAN w)))) = Inr (Some CLEAN)"
proof -
  let ?m = "\<lparr>esm_obj_ref = e, esm_state = Some CLEAN, esm_last_state_hash = py_hash rt []\<rparr>"
  let ?w = "setattr e n v (snd (track rt e CLEAN w))"
  have "map_of (obj_dict (heap ?w ! e)) ''__everest__'' = Some (PyManager ?m)"
    using assms
    by (simp add: track_ok obj_at_setattr length_heap_setattr map_of_obj_setattr)
  then have "entity_state rt e ?w = (Inr (fst (get_state rt ?m)), ?w)"
    by (rule entity_state_manager)
  then show ?thesis by (simp add: get_state_fst)
qed

theorem dirty_detection_never_fires_witness:
  "fst (entity_state rt_ex 0 (setattr 0 ''name'' (PyStr ''b'') (snd (track rt_ex 0 CLEAN w_ex))))
     = Inr (Some CLEAN)"
  using dirty_detection_never_fires [of 0 w_ex "''name''" rt_ex "PyStr ''b''"]
  by (simp add: w_ex_def)

text \<open>
  The same through the unit of work: a widget is registered as NEW, marked CLEAN and then
  renamed; it is not among the dirty entities and still among the clean ones.
\<close>

lemma dirty_scenario:
  "fst (get_dirty rt_ex None
          (setattr 0 ''name'' (PyStr ''b'')
             (snd (mark_clean rt_ex Widget 0 (snd (register_new rt_ex Widget 0 w_ex)))))) = Inr {}"
  by code_simp

lemma clean_scenario:
  "fst (get_clean rt_ex None
          (setattr 0 ''name'' (PyStr ''b'')
             (snd (mark_clean rt_ex Widget 0 (snd (register_new rt_ex Widget 0 w_ex)))))) = Inr {0}"
  by code_simp

section \<open>The transition table\<close>

text \<open>
  C2. For every pair of states \<open>(from, to)\<close>, setting the state of a tracker whose
  current state is \<open>from\<close> (stored, and read) to \<open>to\<close> succeeds exactly for the six
  pairs NEW to CLEAN, NEW to DELETED, CLEAN to DIRTY, CLEAN to DELETED, DIRTY to CLEAN and
  DIRTY to DELETED, and then stores \<open>to\<close>; every other pair, so every pair that leaves
  DELETED, fails with the invalid-transition error that carries the pair.
\<close>

theorem set_state_transition_table:
  assumes "esm_state m = Some from" and "fst (get_state rt m) = Some from"
  shows "set_state rt m to =
           (if (from, to) \<in> {(NEW, CLEAN), (NEW, DELETED), (CLEAN, DIRTY),
                              (CLEAN, DELETED), (DIRTY, CLEAN), (DIRTY, DELETED)}
            then Inr (m\<lparr>esm_state := Some to\<rparr>)
            else Inl (ValueError (InvalidTransition (Some from) to)))"
  using assms by (auto simp add: set_state_eq allowed_transitions_def)

theorem set_state_transition_table_witness:
  "set_state rt_ex m_deleted CLEAN = Inl (ValueError (InvalidTransition (Some DELETED) CLEAN))
   \<and> set_state rt_ex m_new CLEAN = Inr (m_new\<lparr>esm_state := Some CLEAN\<rparr>)"
  using set_state_transition_table [of m_deleted DELETED rt_ex CLEAN]
    set_state_transition_table [of m_new NEW rt_ex CLEAN]
  by (simp add: get_state_fst m_deleted_def m_new_def)

section \<open>Registration of a clean entity\<close>

text \<open>
  C3. \<^verbatim>\<open>register_clean(T, e)\<close> returns a clone \<open>c\<close> that is another object than
  \<open>e\<close>, of the same class, with every public attribute of \<open>e\<close> copied (so the clone
  equals \<open>e\<close> by id); the clone carries a fresh tracker in state CLEAN, and it is the
  original \<open>e\<close> that is added to the type-\<open>T\<close> tracked set, the other sets and \<open>e\<close>
  itself being left alone. The instance dictionary of \<open>e\<close> has distinct keys.
\<close>

theorem register_clean_clone:
  assumes "e < length (heap w)" and "distinct (map fst (obj_dict (heap w ! e)))"
  shows "\<exists>c w'. register_clean rt T e w = (Inr c, w')
           \<and> c \<noteq> e \<and> c = length (heap w)
           \<and> heap w' ! e = heap w ! e
           \<and> obj_class (heap w' ! c) = obj_class (heap w ! e)
           \<and> (\<forall>n. \<not> startswith_underscore n \<longrightarrow>
                 map_of (obj_dict (heap w' ! c)) n = map_of (obj_dict (heap w ! e)) n)
           \<and> entity_eq (heap w ! e) (heap w' ! c)
           \<and> map_of (obj_dict (heap w' ! c)) ''__everest__''
               = Some (PyManager \<lparr>esm_obj_ref = c, esm_state = Some CLEAN,
                                   esm_last_state_hash = py_hash rt []\<rparr>)
           \<and> fst (entity_state rt c w') = Inr (Some CLEAN)
           \<and> tracked w' T = insert e (tracked w T)
           \<and> (\<forall>K. K \<noteq> T \<longrightarrow> tracked w' K = tracked w K)"
proof -
  let ?c = "length (heap w)"
  let ?w' = "snd (register_clean rt T e w)"
  let ?m = "\<lparr>esm_obj_ref = ?c, esm_state = Some CLEAN, esm_last_state_hash = py_hash rt []\<rparr>"
  have r: "register_clean rt T e w = (Inr ?c, ?w')"
    by (simp add: register_clean_eq)
  have d: "\<And>n. map_of (obj_dict (heap ?w' ! ?c)) n =
           (if n = ''__everest__'' then Some (PyManager ?m)
            else if startswith_underscore n then None
            else map_of (obj_dict (heap w ! e)) n)"
    by (rule register_clean_clone_dict [OF assms(2)])
  have pub: "\<forall>n. \<not> startswith_underscore n \<longrightarrow>
                 map_of (obj_dict (heap ?w' ! ?c)) n = map_of (obj_dict (heap w ! e)) n"
    by (auto simp add: d startswith_underscore_def)
  have cls: "obj_class (heap ?w' ! ?c) = obj_class (heap w ! e)"
    by (simp add: register_clean_heap obj_class_obj_setattr obj_class_set_state_data)
  have "\<not> startswith_underscore ''id''" by (simp add: startswith_underscore_def)
  with pub have "entity_id (heap ?w' ! ?c) = entity_id (heap w ! e)"
    by (simp add: entity_id_def)
  with cls have eq: "entity_eq (heap w ! e) (heap ?w' ! ?c)"
    by (simp add: entity_eq_def isinstance_def)
  have ev: "map_of (obj_dict (heap ?w' ! ?c)) ''__everest__'' = Some (PyManager ?m)"
    by (simp add: d)
  have "entity_state rt ?c ?w' = (Inr (fst (get_state rt ?m)), ?w')"
    using ev by (rule entity_state_manager)
  then have st: "fst (entity_state rt ?c ?w') = Inr (Some CLEAN)"
    by (simp add: get_state_fst)
  have orig: "heap ?w' ! e = heap w ! e"
    using assms(1) by (rule register_clean_original)
  from assms(1) have ne: "?c \<noteq> e" by simp
  show ?thesis
    using r ne orig cls pub eq ev st
    by (intro exI [of _ ?c] exI [of _ ?w']) (simp add: register_clean_tracked)
qed

theorem register_clean_clone_witness:
  "register_clean rt_ex Widget 0 w_ex =
     (Inr 1, snd (register_clean rt_ex Widget 0 w_ex))
   \<and> fst (entity_state rt_ex 1 (snd (register_clean rt_ex Widget 0 w_ex))) = Inr (Some CLEAN)
   \<and> tracked (snd (register_clean rt_ex Widget 0 w_ex)) Widget = {0}"
proof -
  have l: "0 < length (heap w_ex)" by (simp add: w_ex_def)
  have d: "distinct (map fst (obj_dict (heap w_ex ! 0)))"
    by (simp add: w_ex_def widget_a_def)
  have c: "length (heap w_ex) = 1" by (simp add: w_ex_def)
  have t: "tracked w_ex Widget = {}" by (simp add: tracked_def w_ex_def)
  from register_clean_clone [OF l d, of rt_ex Widget] show ?thesis
    by (auto simp add: c t)
qed

section \<open>Tracking records and registration\<close>

text \<open>
  C4. The invariant "an entity carries a tracking record if and only if it is registered
  in some unit of work" does not hold at every reachable point: after \<^verbatim>\<open>register_new\<close>
  and \<^verbatim>\<open>reset\<close> the widget still carries its record and is registered nowhere.
\<close>

theorem reset_counterexample:
  "\<not> (hasattr_everest (reset (snd (register_new rt_ex Widget 0 w_ex))) 0
        \<longleftrightarrow> registered (reset (snd (register_new rt_ex Widget 0 w_ex))) 0)"
proof -
  have h: "\<not> hasattr_everest w_ex 0"
    by (simp add: hasattr_everest_def w_ex_def widget_a_def)
  have l: "0 < length (heap w_ex)" by (simp add: w_ex_def)
  have "hasattr_everest (reset (snd (register_new rt_ex Widget 0 w_ex))) 0"
    using h l
    by (simp add: register_new_ok reset_def hasattr_everest_def heap_set_add
        obj_at_setattr length_heap_setattr map_of_obj_setattr)
  moreover have "\<not> registered (reset (snd (register_new rt_ex Widget 0 w_ex))) 0"
    by (simp add: registered_def reset_def)
  ultimately show ?thesis by simp
qed

text \<open>
  C4, as the code has it. \<^verbatim>\<open>register_new\<close> on an entity without a record attaches
  the record and adds the entity to the type-\<open>T\<close> set, so the entity is then both
  record-carrying and registered. A successful \<^verbatim>\<open>unregister(T, e)\<close> removes the record
  and removes \<open>e\<close> from the type-\<open>T\<close> set only: every other set is left as it was, and
  \<open>e\<close> is still registered afterwards exactly when it was in the set of another key.
  \<^verbatim>\<open>unregister(T, e)\<close> on a record-carrying entity that is not in the type-\<open>T\<close> set
  fails with a key error and leaves the record and the sets. \<^verbatim>\<open>register_clean\<close>
  attaches the record to the clone, which it adds to no set, and adds the original to the
  type-\<open>T\<close> set without giving it a record. \<^verbatim>\<open>reset\<close> empties every tracked set and
  leaves every record where it is.
\<close>

theorem tracking_record_bookkeeping:
  assumes "e < length (heap w)"
  shows "(\<not> hasattr_everest w e \<longrightarrow>
            fst (register_new rt T e w) = Inr ()
            \<and> hasattr_everest (snd (register_new rt T e w)) e
            \<and> e \<in> tracked (snd (register_new rt T e w)) T
            \<and> registered (snd (register_new rt T e w)) e)
       \<and> (hasattr_everest w e \<and> e \<in> tracked w T \<longrightarrow>
            fst (unregister T e w) = Inr ()
            \<and> \<not> hasattr_everest (snd (unregister T e w)) e
            \<and> e \<notin> tracked (snd (unregister T e w)) T
            \<and> (\<forall>K. K \<noteq> T \<longrightarrow> tracked (snd (unregister T e w)) K = tracked w K)
            \<and> (registered (snd (unregister T e w)) e
                 \<longleftrightarrow> (\<exists>K. K \<noteq> T \<and> e \<in> tracked w K)))
       \<and> (hasattr_everest w e \<and> e \<notin> tracked w T \<longrightarrow>
            fst (unregister T e w) = Inl KeyError
            \<and> hasattr_everest (snd (unregister T e w)) e
            \<and> (\<forall>K. tracked (snd (unregister T e w)) K = tracked w K))
       \<and> (\<not> hasattr_everest w e \<longrightarrow>
            \<not> hasattr_everest (snd (register_clean rt T e w)) e
            \<and> registered (snd (register_clean rt T e w)) e
            \<and> hasattr_everest (snd (register_clean rt T e w)) (length (heap w))
            \<and> (registered (snd (register_clean rt T e w)) (length (heap w))
                 \<longleftrightarrow> registered w (length (heap w))))
       \<and> (\<forall>a. \<not> registered (reset w) a
              \<and> (hasattr_everest (reset w) a \<longleftrightarrow> hasattr_everest w a))"
proof (intro conjI impI allI)
  assume nh: "\<not> hasattr_everest w e"
  show "fst (register_new rt T e w) = Inr ()"
    using assms nh by (simp add: register_new_ok)
  show "hasattr_everest (snd (register_new rt T e w)) e"
    using assms nh
    by (simp add: register_new_ok hasattr_everest_def heap_set_add
        obj_at_setattr length_heap_setattr map_of_obj_setattr)
  show t: "e \<in> tracked (snd (register_new rt T e w)) T"
    using assms nh by (simp add: register_new_ok tracked_set_add)
  then show "registered (snd (register_new rt T e w)) e"
    by (auto simp add: registered_iff)
next
  assume "hasattr_everest w e \<and> e \<in> tracked w T"
  then have u: "unregister T e w =
           (Inr (), delattr e ''__everest__''
                      (w\<lparr>entity_set_map :=
                           AList.update T (tracked w T - {e}) (entity_set_map w)\<rparr>))"
    by (simp add: unregister_ok)
  show "fst (unregister T e w) = Inr ()" by (simp add: u)
  show "\<not> hasattr_everest (snd (unregister T e w)) e"
    using assms by (simp add: u hasattr_delattr)
  show "e \<notin> tracked (snd (unregister T e w)) T"
    by (simp add: u tracked_delattr tracked_update)
  show "registered (snd (unregister T e w)) e \<longleftrightarrow> (\<exists>K. K \<noteq> T \<and> e \<in> tracked w K)"
    by (auto simp add: registered_iff u tracked_delattr tracked_update split: if_splits)
  fix K
  assume "K \<noteq> T"
  then show "tracked (snd (unregister T e w)) K = tracked w K"
    by (simp add: u tracked_delattr tracked_update)
next
  assume a: "hasattr_everest w e \<and> e \<notin> tracked w T"
  then have b: "fst (unregister T e w) = Inl KeyError
       \<and> hasattr_everest (snd (unregister T e w)) e
       \<and> (\<forall>K. tracked (snd (unregister T e w)) K = tracked w K)"
    by (simp add: unregister_absent)
  from b show "fst (unregister T e w) = Inl KeyError" by simp
  from b show "hasattr_everest (snd (unregister T e w)) e" by simp
  fix K
  from b show "tracked (snd (unregister T e w)) K = tracked w K" by simp
next
  assume nh: "\<not> hasattr_everest w e"
  show "\<not> hasattr_everest (snd (register_clean rt T e w)) e"
    using assms nh by (simp add: hasattr_everest_def register_clean_original)
  have "e \<in> tracked (snd (register_clean rt T e w)) T"
    by (simp add: register_clean_tracked)
  then show "registered (snd (register_clean rt T e w)) e"
    by (auto simp add: registered_iff)
  show "hasattr_everest (snd (register_clean rt T e w)) (length (heap w))"
    by (simp add: hasattr_everest_def register_clean_heap map_of_obj_setattr)
  show "registered (snd (register_clean rt T e w)) (length (heap w))
          \<longleftrightarrow> registered w (length (heap w))"
    using assms by (auto simp add: registered_iff register_clean_tracked split: if_splits)
next
  fix a
  show "\<not> registered (reset w) a" by (simp add: registered_def reset_def)
  show "hasattr_everest (reset w) a \<longleftrightarrow> hasattr_everest w a"
    by (simp add: hasattr_everest_def reset_def)
qed

theorem tracking_record_bookkeeping_witness:
  "hasattr_everest (snd (register_new rt_ex Widget 0 w_ex)) 0
   \<and> registered (snd (register_new rt_ex Widget 0 w_ex)) 0
   \<and> fst (unregister Widget 0 w_two) = Inr ()
   \<and> \<not> hasattr_everest (snd (unregister Widget 0 w_two)) 0
   \<and> registered (snd (unregister Widget 0 w_two)) 0
   \<and> fst (unregister SpecialWidget 0 (snd (register_new rt_ex Widget 0 w_ex))) = Inl KeyError
   \<and> \<not> hasattr_everest (snd (register_clean rt_ex Widget 0 w_ex)) 0
   \<and> registered (snd (register_clean rt_ex Widget 0 w_ex)) 0
   \<and> hasattr_everest (snd (register_clean rt_ex Widget 0 w_ex)) 1
   \<and> \<not> registered (reset w_ex) 0"
proof -
  let ?w1 = "snd (register_new rt_ex Widget 0 w_ex)"
  have h: "\<not> hasattr_everest w_ex 0"
    by (simp add: hasattr_everest_def w_ex_def widget_a_def)
  have l: "0 < length (heap w_ex)" by (simp add: w_ex_def)
  have c: "length (heap w_ex) = 1" by (simp add: w_ex_def)
  have l1: "0 < length (heap ?w1)" by (simp add: w_one_facts)
  have l2: "0 < length (heap w_two)" by (simp add: w_two_facts)
  have ne: "SpecialWidget \<noteq> Widget" by (simp add: SpecialWidget_def Widget_def)
  have ex: "\<exists>K. K \<noteq> Widget \<and> 0 \<in> tracked w_two K"
    using ne w_two_facts(4) by (intro exI [of _ SpecialWidget]) simp
  have a: "hasattr_everest ?w1 0 \<and> registered ?w1 0
       \<and> \<not> hasattr_everest (snd (register_clean rt_ex Widget 0 w_ex)) 0
       \<and> registered (snd (register_clean rt_ex Widget 0 w_ex)) 0
       \<and> hasattr_everest (snd (register_clean rt_ex Widget 0 w_ex)) 1
       \<and> \<not> registered (reset w_ex) 0"
    using tracking_record_bookkeeping [OF l, of rt_ex Widget] h by (simp add: c)
  have b: "fst (unregister Widget 0 w_two) = Inr ()
       \<and> \<not> hasattr_everest (snd (unregister Widget 0 w_two)) 0
       \<and> registered (snd (unregister Widget 0 w_two)) 0"
    using tracking_record_bookkeeping [OF l2, of rt_ex Widget] ex w_two_facts(2,3) by simp
  have d: "fst (unregister SpecialWidget 0 ?w1) = Inl KeyError"
    using tracking_record_bookkeeping [OF l1, of rt_ex SpecialWidget] w_one_facts(2,3) by simp
  from a b d show ?thesis by simp
qed

section \<open>Equality of entities\<close>

text \<open>
  C5. For all entities \<open>a\<close> and \<open>b\<close>, \<open>a == b\<close> holds if and only if the two are of
  the same concrete class and have equal ids: instances of one class with the same id are
  equal, and an instance of one class differs from an instance of another class with the
  same id, also when one class derives from the other. The two classes are not each
  other's ancestors, as in every class hierarchy.
\<close>

theorem entity_equality:
  assumes "\<not> (class_name (obj_class a) \<in> set (class_bases (obj_class b))
              \<and> class_name (obj_class b) \<in> set (class_bases (obj_class a)))"
  shows "py_eq a b \<longleftrightarrow> obj_class a = obj_class b \<and> entity_id a = entity_id b"
  using assms by (auto simp add: py_eq_def issubtype_def entity_eq_def isinstance_def)

theorem entity_equality_witness:
  "py_eq widget_one widget_one \<and> \<not> py_eq widget_one special_one
   \<and> \<not> py_eq special_one widget_one"
  using entity_equality [of widget_one widget_one] entity_equality [of widget_one special_one]
    entity_equality [of special_one widget_one]
  by (simp add: widget_one_def special_one_def Widget_def SpecialWidget_def)

text \<open>
  The method alone, called on the instance of the base class, accepts the instance of the
  subclass; the operator does not, because it asks the instance of the subclass first.
\<close>

lemma entity_eq_method_subclass:
  "entity_eq widget_one special_one \<and> \<not> entity_eq special_one widget_one"
  by (simp add: entity_eq_def isinstance_def entity_id_def widget_one_def special_one_def
      Widget_def SpecialWidget_def)

section \<open>Double registration\<close>

text \<open>
  C6. After \<^verbatim>\<open>register_new(T, e)\<close> has succeeded, a second \<^verbatim>\<open>register_new(T, e)\<close>
  fails with the double-registration error and leaves the world as it was, and the
  type-\<open>T\<close> tracked set holds \<open>e\<close> exactly once.
\<close>

theorem register_new_twice:
  assumes "e < length (heap w)" and "register_new rt T e w = (Inr (), w1)"
  shows "register_new rt T e w1 = (Inl (ValueError DoubleRegistration), w1)
       \<and> e \<in> tracked w1 T \<and> card (tracked w1 T \<inter> {e}) = 1"
proof -
  have nh: "\<not> hasattr_everest w e"
    using assms(2) register_new_result [of rt T e w] by simp
  let ?m = "\<lparr>esm_obj_ref = e, esm_state = Some NEW, esm_last_state_hash = py_hash rt []\<rparr>"
  let ?w0 = "setattr e ''__everest__'' (PyManager (esm_init rt e)) w"
  have w1: "w1 = set_add T e (setattr e ''__everest__'' (PyManager ?m) ?w0)"
    using assms nh by (simp add: register_new_ok)
  have "hasattr_everest (setattr e ''__everest__'' (PyManager ?m) ?w0) e"
    using assms(1) by (simp add: hasattr_setattr_everest length_heap_setattr)
  then have h1: "hasattr_everest w1 e"
    by (simp add: w1 hasattr_heap [OF heap_set_add])
  have t: "e \<in> tracked w1 T"
    by (simp add: w1 tracked_set_add)
  from h1 have "register_new rt T e w1 = (Inl (ValueError DoubleRegistration), w1)"
    by (simp add: register_new_def)
  moreover from t have "tracked w1 T \<inter> {e} = {e}" by auto
  ultimately show ?thesis using t by simp
qed

theorem register_new_twice_witness:
  "register_new rt_ex Widget 0 (snd (register_new rt_ex Widget 0 w_ex))
     = (Inl (ValueError DoubleRegistration), snd (register_new rt_ex Widget 0 w_ex))
   \<and> 0 \<in> tracked (snd (register_new rt_ex Widget 0 w_ex)) Widget"
proof -
  have h: "\<not> hasattr_everest w_ex 0"
    by (simp add: hasattr_everest_def w_ex_def widget_a_def)
  have l: "0 < length (heap w_ex)" by (simp add: w_ex_def)
  have "fst (register_new rt_ex Widget 0 w_ex) = Inr ()"
    using h l by (simp add: register_new_ok)
  then have "register_new rt_ex Widget 0 w_ex = (Inr (), snd (register_new rt_ex Widget 0 w_ex))"
    by (metis prod.collapse)
  from register_new_twice [OF l this] show ?thesis by simp
qed

section \<open>Reading the state\<close>

text \<open>
  C7. Reading the state is a pure read. When the stored state is CLEAN and the hash of
  the state string differs from the baseline, the read gives DIRTY and leaves the manager
  (stored state and baseline) as it was; reading never changes the manager or the world,
  so a second read gives what the first gave.
\<close>

theorem get_state_pure_read:
  "(esm_state m = Some CLEAN \<and> py_hash rt (get_state_string rt m) \<noteq> esm_last_state_hash m
      \<longrightarrow> get_state rt m = (Some DIRTY, m))
   \<and> snd (get_state rt m) = m
   \<and> get_state rt (snd (get_state rt m)) = get_state rt m
   \<and> snd (entity_state rt a w) = w
   \<and> entity_state rt a (snd (entity_state rt a w)) = entity_state rt a w"
  by (simp add: get_state_snd entity_state_snd) (simp add: get_state_def)

theorem get_state_pure_read_witness:
  "get_state rt_ex m_diverged = (Some DIRTY, m_diverged)
   \<and> esm_state m_diverged = Some CLEAN
   \<and> snd (entity_state rt_ex 0 w_ex) = w_ex"
  using get_state_pure_read [of m_diverged rt_ex 0 w_ex]
  by (simp add: get_state_string_empty rt_ex_def m_diverged_def)

section \<open>Resetting to clean\<close>

text \<open>
  C8. \<^verbatim>\<open>reset_state\<close> followed by a state read does not give CLEAN for every tracked
  entity: on a tracker in state DELETED the reset fails with the invalid-transition error.
\<close>

theorem reset_state_all_counterexample:
  "reset_state rt_ex m_deleted = Inl (ValueError (InvalidTransition (Some DELETED) CLEAN))"
  by (simp add: reset_state_def set_state_eq get_state_fst allowed_transitions_def
      m_deleted_def)

text \<open>
  C8, as the code has it. When the state read is NEW, DIRTY or still unset, the reset
  succeeds, the baseline is the hash of the state string taken at the reset, and the
  state read right after it is CLEAN. When the state read is CLEAN or DELETED the reset
  fails with the invalid-transition error.
\<close>

theorem reset_state_then_clean:
  "(fst (get_state rt m) \<in> {None, Some NEW, Some DIRTY} \<longrightarrow>
      (\<exists>m'. reset_state rt m = Inr m'
            \<and> esm_last_state_hash m' = py_hash rt (get_state_string rt m')
            \<and> get_state rt m' = (Some CLEAN, m')))
   \<and> (fst (get_state rt m) \<in> {Some CLEAN, Some DELETED} \<longrightarrow>
      reset_state rt m = Inl (ValueError (InvalidTransition (esm_state m) CLEAN)))"
proof (intro conjI impI)
  assume ok: "fst (get_state rt m) \<in> {None, Some NEW, Some DIRTY}"
  let ?m' = "m\<lparr>esm_state := Some CLEAN, esm_last_state_hash := py_hash rt []\<rparr>"
  have r: "reset_state rt m = Inr ?m'"
    using ok by (auto simp add: reset_state_def set_state_eq allowed_transitions_def
        get_state_string_empty)
  have "get_state rt ?m' = (fst (get_state rt ?m'), snd (get_state rt ?m'))"
    by simp
  then have g: "get_state rt ?m' = (Some CLEAN, ?m')"
    by (simp only: get_state_snd get_state_fst) simp
  show "\<exists>m'. reset_state rt m = Inr m'
            \<and> esm_last_state_hash m' = py_hash rt (get_state_string rt m')
            \<and> get_state rt m' = (Some CLEAN, m')"
    using r g by (simp add: get_state_string_empty)
next
  assume "fst (get_state rt m) \<in> {Some CLEAN, Some DELETED}"
  then show "reset_state rt m = Inl (ValueError (InvalidTransition (esm_state m) CLEAN))"
    by (auto simp add: reset_state_def set_state_eq allowed_transitions_def)
qed

theorem reset_state_then_clean_witness:
  "(\<exists>m'. reset_state rt_ex m_dirty = Inr m' \<and> get_state rt_ex m' = (Some CLEAN, m'))
   \<and> reset_state rt_ex m_deleted = Inl (ValueError (InvalidTransition (Some DELETED) CLEAN))"
  using reset_state_then_clean [of rt_ex m_dirty] reset_state_then_clean [of rt_ex m_deleted]
  by (auto simp add: get_state_fst m_dirty_def m_deleted_def)

text \<open>
  A clone registered as CLEAN and then renamed still reads CLEAN, so marking it clean is
  the transition CLEAN to CLEAN, which the table does not hold.
\<close>

lemma mark_clean_scenario:
  "fst (mark_clean rt_ex Widget 1
          (setattr 1 ''name'' (PyStr ''b'') (snd (register_clean rt_ex Widget 0 w_ex))))
     = Inl (ValueError (InvalidTransition (Some CLEAN) CLEAN))"
  by code_simp

section \<open>Operations on an unregistered entity\<close>

text \<open>
  C9. On an entity that carries no tracking record, \<^verbatim>\<open>mark_clean\<close>,
  \<^verbatim>\<open>mark_dirty\<close>, \<^verbatim>\<open>mark_deleted\<close> and \<^verbatim>\<open>unregister\<close> each fail at once with
  their unregistered-entity error (a \<^verbatim>\<open>ValueError\<close>) and change nothing.
\<close>

theorem unregistered_entity_operations:
  assumes "\<not> hasattr_everest w e"
  shows "mark_clean rt T e w = (Inl (ValueError UnregisteredClean), w)
       \<and> mark_dirty rt T e w = (Inl (ValueError UnregisteredDirty), w)
       \<and> mark_deleted rt T e w = (Inl (ValueError UnregisteredDeleted), w)
       \<and> unregister T e w = (Inl (ValueError UnregisteredUnregister), w)"
  using assms by (simp add: mark_clean_def mark_dirty_def mark_deleted_def unregister_def)

theorem unregistered_entity_operations_witness:
  "\<not> hasattr_everest w_ex 0
   \<and> unregister Widget 0 w_ex = (Inl (ValueError UnregisteredUnregister), w_ex)
   \<and> mark_dirty rt_ex Widget 0 w_ex = (Inl (ValueError UnregisteredDirty), w_ex)"
proof -
  have h: "\<not> hasattr_everest w_ex 0"
    by (simp add: hasattr_everest_def w_ex_def widget_a_def)
  show ?thesis using h unregistered_entity_operations [OF h, of rt_ex Widget] by simp
qed

section \<open>Queries after a clean registration\<close>

text \<open>
  C10. When an entity without a tracking handle has been registered with
  \<^verbatim>\<open>register_clean\<close>, the original sits in the type-\<open>T\<close> tracked set without a
  handle, and each of \<^verbatim>\<open>get_clean\<close>, \<^verbatim>\<open>get_new\<close>, \<^verbatim>\<open>get_dirty\<close>,
  \<^verbatim>\<open>get_deleted\<close> (over all types, or over \<open>T\<close>) and \<^verbatim>\<open>iterator\<close>, consumed to its
  end, fails with an attribute error.
\<close>

theorem register_clean_breaks_queries:
  assumes "e < length (heap w)" and "\<not> hasattr_everest w e"
  shows "fst (get_clean rt None (snd (register_clean rt T e w))) = Inl AttributeError
       \<and> fst (get_new rt None (snd (register_clean rt T e w))) = Inl AttributeError
       \<and> fst (get_dirty rt None (snd (register_clean rt T e w))) = Inl AttributeError
       \<and> fst (get_deleted rt None (snd (register_clean rt T e w))) = Inl AttributeError
       \<and> fst (get_clean rt (Some T) (snd (register_clean rt T e w))) = Inl AttributeError
       \<and> fst (get_new rt (Some T) (snd (register_clean rt T e w))) = Inl AttributeError
       \<and> fst (get_dirty rt (Some T) (snd (register_clean rt T e w))) = Inl AttributeError
       \<and> fst (get_deleted rt (Some T) (snd (register_clean rt T e w))) = Inl AttributeError
       \<and> iterator rt (snd (register_clean rt T e w)) = Inl AttributeError"
proof -
  let ?w' = "snd (register_clean rt T e w)"
  have t: "e \<in> tracked ?w' T" by (simp add: register_clean_tracked)
  have "\<not> hasattr_everest ?w' e"
    using assms by (simp add: hasattr_everest_def register_clean_original)
  then have a: "fst (entity_state rt e ?w') = Inl AttributeError"
    by (rule entity_state_untracked)
  have "iterator rt ?w' = Inl AttributeError"
    unfolding iterator_def using tracked_key [OF t] t a by (rule iter_triples_error)
  then show ?thesis
    using object_iterator_error [OF t a]
    by (simp add: get_clean_def get_new_def get_dirty_def get_deleted_def)
qed

theorem register_clean_breaks_queries_witness:
  "fst (get_clean rt_ex None (snd (register_clean rt_ex Widget 0 w_ex))) = Inl AttributeError
   \<and> iterator rt_ex (snd (register_clean rt_ex Widget 0 w_ex)) = Inl AttributeError"
proof -
  have h: "\<not> hasattr_everest w_ex 0"
    by (simp add: hasattr_everest_def w_ex_def widget_a_def)
  have l: "0 < length (heap w_ex)" by (simp add: w_ex_def)
  from register_clean_breaks_queries [OF l h, of rt_ex Widget] show ?thesis by simp
qed

end
